theory Spec2Isabelle
  imports
    Complex_Main
    "HOL-Library.Word"
    "HOL-Library.Char_ord"
    "HOL-Library.List_Lexorder"
    "HOL-Library.Option_ord"
    "HOL-Library.Sublist"
    "HOL-Library.Multiset"
begin

section \<open>Garbage detection web application: a model of \<^verbatim>\<open>app.py\<close>\<close>

text \<open>
  The application is one Python module: an upload route that validates and stores an
  image, asks a detector for class labels and inserts one row into the table
  \<^verbatim>\<open>detections\<close>, and an analytics route that lists the table and counts size categories.

  What the module does itself is modelled as it is written. What it calls in libraries
  (Pillow, werkzeug, the detector, the clock, the random UUID generator) is a parameter of
  the model: a record of functions, or an argument, so that every theorem holds for every
  behaviour of those libraries. An exception is a value: a library call that the source
  wraps in \<^verbatim>\<open>try\<close> returns an option or a sum, and the handler is a case distinction.
\<close>

subsection \<open>Python strings\<close>

text \<open>
  A \<^verbatim>\<open>str\<close> is a \<^typ>\<open>string\<close>; characters are compared by their code, as Python
  compares code points. The string methods are modelled on ASCII text: \<^verbatim>\<open>lower\<close>
  changes the letters A to Z only, and \<^verbatim>\<open>strip\<close> removes the ASCII white space
  characters (codes 9 to 13 and 28 to 32).
\<close>

type_synonym bytes = "8 word list"

definition is_upper :: "char \<Rightarrow> bool" where
  "is_upper c = (CHR ''A'' \<le> c \<and> c \<le> CHR ''Z'')"

definition char_lower :: "char \<Rightarrow> char" where
  "char_lower c = (if is_upper c then char_of (of_char c + (32::nat)) else c)"

definition str_lower :: "string \<Rightarrow> string" where
  "str_lower s = map char_lower s"

definition is_space :: "char \<Rightarrow> bool" where
  "is_space c = (let n = (of_char c :: nat) in (9 \<le> n \<and> n \<le> 13) \<or> (28 \<le> n \<and> n \<le> 32))"

definition str_strip :: "string \<Rightarrow> string" where
  "str_strip s = rev (dropWhile is_space (rev (dropWhile is_space s)))"

text \<open>\<^verbatim>\<open>s.split(c)\<close>: the pieces between the occurrences of \<open>c\<close>; never an empty list.\<close>

fun str_split :: "char \<Rightarrow> string \<Rightarrow> string list" where
  "str_split c [] = [[]]"
| "str_split c (x # xs) =
     (if x = c then [] # str_split c xs
      else (case str_split c xs of
              [] \<Rightarrow> [[x]]
            | p # ps \<Rightarrow> (x # p) # ps))"

text \<open>\<^verbatim>\<open>sep.join(xs)\<close>.\<close>

fun str_join :: "string \<Rightarrow> string list \<Rightarrow> string" where
  "str_join sep [] = []"
| "str_join sep [x] = x"
| "str_join sep (x # y # ys) = x @ sep @ str_join sep (y # ys)"

text \<open>\<^verbatim>\<open>needle in hay\<close>: \<open>needle\<close> occurs in \<open>hay\<close> as a contiguous piece.\<close>

fun str_contains :: "string \<Rightarrow> string \<Rightarrow> bool" where
  "str_contains needle [] = (needle = [])"
| "str_contains needle (c # cs) = (prefix needle (c # cs) \<or> str_contains needle cs)"

text \<open>
  Fixed-width numerals: the \<open>n\<close> least significant digits of \<open>v\<close> in base \<open>b\<close>, most
  significant first. \<^verbatim>\<open>'%032x' % i\<close> is \<open>radix_digits 16 32 i\<close> for \<open>i < 2 ^ 128\<close>, and
  \<^verbatim>\<open>%m\<close> of \<^verbatim>\<open>strftime\<close> is \<open>radix_digits 10 2 m\<close>.
\<close>

definition digit_char :: "nat \<Rightarrow> char" where
  "digit_char d = (if d < 10 then char_of (48 + d) else char_of (87 + d))"

fun radix_digits :: "nat \<Rightarrow> nat \<Rightarrow> nat \<Rightarrow> string" where
  "radix_digits b 0 v = []"
| "radix_digits b (Suc n) v = radix_digits b n (v div b) @ [digit_char (v mod b)]"

subsection \<open>Exceptions\<close>

datatype py_error =
  ValueError string
  | UnidentifiedImageError
  | IntegrityError

subsection \<open>Configuration\<close>

definition UPLOAD_FOLDER :: string where
  "UPLOAD_FOLDER = ''uploads''"

definition DETECTION_FOLDER :: string where
  "DETECTION_FOLDER = ''runs''"


definition ALLOWED_VIDEO_EXTENSIONS :: "string set" where
  "ALLOWED_VIDEO_EXTENSIONS = {''mp4'', ''avi'', ''mov'', ''mkv'', ''webm''}"

text \<open>
  A Python float is finite, an infinity or a NaN. A finite float is modelled by the real
  number that its decimal text denotes; the rounding to a double is left out, since the
  module never computes with floats: it parses them and passes them on.
\<close>

datatype pyfloat = Finite real | PosInf | NegInf | NaN

type_synonym coords = "pyfloat \<times> pyfloat"

definition CITY_NAME :: string where
  "CITY_NAME = ''Muzaffarabad, Azad Kashmir''"

definition CITY_COORDS :: coords where
  "CITY_COORDS = (Finite 34.3700, Finite 73.4711)"

subsection \<open>Location resolver\<close>

text \<open>
  \<open>float\<close> is Python's \<^verbatim>\<open>float(str)\<close>: \<open>None\<close> when it raises \<^verbatim>\<open>ValueError\<close>. The
  argument is \<open>None\<close> or a string, as the callers pass it. The \<^verbatim>\<open>try\<close> block around the
  two conversions is the value \<open>parsed\<close>: \<open>None\<close> when one of them raised and the handler
  passed.
\<close>

definition parse_location_to_coords :: "(string \<Rightarrow> pyfloat option) \<Rightarrow> string option \<Rightarrow> coords" where
  "parse_location_to_coords float location_text =
     (case location_text of
        None \<Rightarrow> CITY_COORDS
      | Some t \<Rightarrow>
          if t = [] then CITY_COORDS
          else
            let parts = map str_strip (str_split CHR '','' t);
                parsed =
                  (if length parts \<ge> 2 then
                     (case float (parts ! 0) of
                        None \<Rightarrow> None
                      | Some lat \<Rightarrow>
                          (case float (parts ! 1) of
                             None \<Rightarrow> None
                           | Some lon \<Rightarrow> Some (lat, lon)))
                   else None)
            in (case parsed of
                  Some c \<Rightarrow> c
                | None \<Rightarrow>
                    if str_contains ''muzaffarabad'' (str_lower t) \<or> str_contains ''azad'' (str_lower t)
                    then CITY_COORDS
                    else CITY_COORDS))"

subsection \<open>Image validator and normalizer\<close>

text \<open>
  A decoded Pillow image: its detected format (\<^verbatim>\<open>img.format\<close>, which may be
  \<^verbatim>\<open>None\<close>), its mode (\<^verbatim>\<open>"L"\<close>, \<^verbatim>\<open>"RGB"\<close>, \<^verbatim>\<open>"RGBA"\<close>, ...) and its pixel
  data, which the module never inspects.
\<close>

record image =
  img_format :: "string option"
  img_mode :: string
  img_pixels :: "nat list"

text \<open>
  The library calls of \<^verbatim>\<open>save_uploaded_image\<close>:
  \<^item> \<open>Image_open raw\<close> is \<^verbatim>\<open>Image.open(BytesIO(raw))\<close>, \<open>None\<close> when it raises;
  \<^item> \<open>Image_verify img\<close> is \<^verbatim>\<open>img.verify()\<close>, \<open>False\<close> when it raises;
  \<^item> \<open>convert_pixels mode img\<close> is the pixel data of \<^verbatim>\<open>img.convert(mode)\<close>;
  \<^item> \<open>secure_filename\<close> is werkzeug's function of that name.
  The source guards the first two with \<^verbatim>\<open>try\<close>; \<^verbatim>\<open>convert\<close> and \<^verbatim>\<open>save\<close> are
  called outside any handler and are modelled as succeeding.
\<close>

record library =
  Image_open :: "bytes \<Rightarrow> image option"
  Image_verify :: "image \<Rightarrow> bool"
  convert_pixels :: "string \<Rightarrow> image \<Rightarrow> nat list"
  secure_filename :: "string \<Rightarrow> string"

text \<open>\<^verbatim>\<open>img.convert(mode)\<close>: a new image in that mode; a converted copy has no format.\<close>

definition convert :: "library \<Rightarrow> image \<Rightarrow> string \<Rightarrow> image" where
  "convert L img mode =
     \<lparr>img_format = None, img_mode = mode, img_pixels = convert_pixels L mode img\<rparr>"

text \<open>
  What \<^verbatim>\<open>img.save(filepath, format=..., quality=...)\<close> leaves at \<open>filepath\<close>: the image
  written, the format asked for and the quality asked for. The upload store is a map from
  paths to such files; saving to a path that exists replaces the file.
\<close>

record saved_file =
  sf_image :: image
  sf_format :: "string option"
  sf_quality :: "nat option"

type_synonym upload_store = "string \<rightharpoonup> saved_file"

text \<open>A werkzeug \<^verbatim>\<open>FileStorage\<close>: the client's file name, if any, and the bytes.\<close>

record file_storage =
  fs_filename :: "string option"
  fs_content :: bytes

text \<open>\<^verbatim>\<open>s.rfind(c)\<close>: the last index of \<open>c\<close> in \<open>s\<close>, or \<open>-1\<close>.\<close>

fun str_rfind :: "char \<Rightarrow> string \<Rightarrow> int" where
  "str_rfind c [] = -1"
| "str_rfind c (x # xs) =
     (let r = str_rfind c xs in
      if r \<ge> 0 then r + 1 else if x = c then 0 else -1)"

text \<open>
  \<^verbatim>\<open>os.path.splitext\<close> on POSIX: the extension starts at the last dot of the last path
  component, unless only dots come before it in that component.
\<close>

definition os_path_splitext :: "string \<Rightarrow> string \<times> string" where
  "os_path_splitext p =
     (let sepIndex = str_rfind CHR ''/'' p;
          dotIndex = str_rfind CHR ''.'' p
      in if dotIndex > sepIndex
            \<and> filter (\<lambda>c. c \<noteq> CHR ''.'') (drop (nat (sepIndex + 1)) (take (nat dotIndex) p)) \<noteq> []
         then (take (nat dotIndex) p, drop (nat dotIndex) p)
         else (p, []))"

text \<open>\<^verbatim>\<open>os.path.join(a, b)\<close> and \<^verbatim>\<open>os.path.basename(p)\<close> on POSIX.\<close>

definition os_path_join :: "string \<Rightarrow> string \<Rightarrow> string" where
  "os_path_join a b =
     (if b \<noteq> [] \<and> hd b = CHR ''/'' then b
      else if a = [] \<or> last a = CHR ''/'' then a @ b
      else a @ ''/'' @ b)"

definition os_path_basename :: "string \<Rightarrow> string" where
  "os_path_basename p = drop (nat (str_rfind CHR ''/'' p + 1)) p"

text \<open>
  \<^verbatim>\<open>uuid.uuid4()\<close> draws a 128-bit number; \<^verbatim>\<open>str\<close> prints its 32 hexadecimal digits in
  groups of 8, 4, 4, 4 and 12. The number drawn is an argument of the functions that draw.
\<close>

type_synonym uuid = "128 word"

definition str_uuid :: "uuid \<Rightarrow> string" where
  "str_uuid u =
     (let h = radix_digits 16 32 (unat u)
      in take 8 h @ ''-'' @ take 4 (drop 8 h) @ ''-'' @ take 4 (drop 12 h) @ ''-''
           @ take 4 (drop 16 h) @ ''-'' @ drop 20 h)"

definition ext_map :: "string \<rightharpoonup> string" where
  "ext_map = [''jpeg'' \<mapsto> ''jpg'', ''jfif'' \<mapsto> ''jpg'']"

text \<open>Lines 69 to 72: the canonical extension of a decoded image.\<close>

definition canonical_ext :: "image \<Rightarrow> string" where
  "canonical_ext img =
     (let fmt = (case img_format img of
                   None \<Rightarrow> ''JPEG''
                 | Some f \<Rightarrow> if f = [] then ''JPEG'' else f);
          fmt_lower = str_lower fmt
      in (case ext_map fmt_lower of
            None \<Rightarrow> fmt_lower
          | Some e \<Rightarrow> e))"

text \<open>Lines 74 to 76: the stored file name.\<close>

definition stored_filename :: "library \<Rightarrow> uuid \<Rightarrow> string option \<Rightarrow> string \<Rightarrow> string" where
  "stored_filename L tok name ext =
     (let orig_name = secure_filename L
            (case name of
               None \<Rightarrow> ''image''
             | Some n \<Rightarrow> if n = [] then ''image'' else n);
          base = fst (os_path_splitext orig_name)
      in str_uuid tok @ ''_'' @ base @ ''.'' @ ext)"

text \<open>
  The first \<^verbatim>\<open>try\<close> block decodes and verifies; any exception there becomes the
  \<^verbatim>\<open>ValueError\<close>. The image is then opened again, outside the handler. The result is the
  path or the exception raised, with the upload store after the call.
\<close>

definition save_uploaded_image ::
  "library \<Rightarrow> uuid \<Rightarrow> file_storage \<Rightarrow> upload_store \<Rightarrow> (py_error + string) \<times> upload_store" where
  "save_uploaded_image L tok file_storage store =
     (let raw = fs_content file_storage;
          verified = (case Image_open L raw of
                        None \<Rightarrow> False
                      | Some img \<Rightarrow> Image_verify L img)
      in if \<not> verified then (Inl (ValueError ''Uploaded file is not a valid image''), store)
         else
           (case Image_open L raw of
              None \<Rightarrow> (Inl UnidentifiedImageError, store)
            | Some img \<Rightarrow>
                let ext = canonical_ext img;
                    filename = stored_filename L tok (fs_filename file_storage) ext;
                    filepath = os_path_join UPLOAD_FOLDER filename
                in if ext = ''jpg'' \<or> ext = ''jpeg''
                   then (Inr filepath,
                         store(filepath \<mapsto>
                           \<lparr>sf_image = convert L img ''RGB'', sf_format = Some ''JPEG'',
                            sf_quality = Some 90\<rparr>))
                   else (Inr filepath,
                         store(filepath \<mapsto>
                           \<lparr>sf_image = img, sf_format = img_format img, sf_quality = None\<rparr>))))"

subsection \<open>Detection invoker\<close>

text \<open>
  One result of the detector: \<^verbatim>\<open>res.boxes\<close> is \<^verbatim>\<open>None\<close> or carries the class indices
  \<^verbatim>\<open>res.boxes.cls\<close> of its boxes. A class index is modelled as the integer that
  \<^verbatim>\<open>int(cls)\<close> yields. The results of a call come as a list of such results, so that
  walking them raises nothing: inside the handler the call itself is what can raise, and
  the lookup of a name, which has a handler of its own.
\<close>

datatype result = Result (boxes: "int list option")

text \<open>
  The module-level \<^verbatim>\<open>model\<close>, when it was loaded:
  \<^item> \<open>clf_call filepath\<close> is \<^verbatim>\<open>model(filepath)\<close>: the results, or \<open>Inl\<close> the text of
    the exception it raises;
  \<^item> \<open>clf_names\<close> is the attribute \<^verbatim>\<open>model.names\<close>, \<open>None\<close> when it is absent;
  \<^item> \<open>clf_cls_str cls\<close> is \<^verbatim>\<open>str(cls)\<close>.
\<close>

record classifier =
  clf_call :: "string \<Rightarrow> string + result list"
  clf_names :: "(int \<rightharpoonup> string) option"
  clf_cls_str :: "int \<Rightarrow> string"

text \<open>Lines 134 to 137: the label of one class index, by name or, failing that, by its text.\<close>

definition add_cls :: "classifier \<Rightarrow> (int \<rightharpoonup> string) \<Rightarrow> string set \<Rightarrow> int \<Rightarrow> string set" where
  "add_cls m names detected_set cls =
     (case names cls of
        Some n \<Rightarrow> insert n detected_set
      | None \<Rightarrow> insert (clf_cls_str m cls) detected_set)"

text \<open>Lines 132 and 133: the boxes of one result.\<close>

definition add_result :: "classifier \<Rightarrow> (int \<rightharpoonup> string) \<Rightarrow> string set \<Rightarrow> result \<Rightarrow> string set" where
  "add_result m names detected_set res =
     (case boxes res of
        None \<Rightarrow> detected_set
      | Some clss \<Rightarrow> foldl (add_cls m names) detected_set clss)"

text \<open>
  Lines 126 to 141: the detection set, and what the handler prints. With no model the set
  is the sentinel; when the call raises, the handler prints and the set stays as it was.
\<close>

definition run_model :: "classifier option \<Rightarrow> string \<Rightarrow> string set \<times> string list" where
  "run_model model filepath =
     (case model of
        None \<Rightarrow> ({''model_missing''}, [])
      | Some m \<Rightarrow>
          (case clf_call m filepath of
             Inl e \<Rightarrow> ({}, [''Model inference error: '' @ e])
           | Inr results \<Rightarrow>
               (let names = (case clf_names m of
                               None \<Rightarrow> Map.empty
                             | Some ns \<Rightarrow> ns)
                in (foldl (add_result m names) {} results, []))))"

text \<open>Line 143.\<close>

definition detected_str :: "string set \<Rightarrow> string" where
  "detected_str detected_set =
     (if detected_set \<noteq> {} then str_join '', '' (sorted_list_of_set detected_set) else ''None'')"

subsection \<open>Record store\<close>

text \<open>
  A row of the table \<^verbatim>\<open>detections\<close>. Every column is \<^verbatim>\<open>TEXT\<close>; the primary key is
  the string of a UUID, the other columns may hold \<^verbatim>\<open>NULL\<close>.
\<close>

record row =
  row_id :: string
  row_filename :: "string option"
  row_detected_classes :: "string option"
  row_timestamp :: "string option"
  row_location :: "string option"
  row_incharge :: "string option"

text \<open>The table in insertion order. An insert with a key that exists fails.\<close>

definition insert_detection :: "row \<Rightarrow> row list \<Rightarrow> py_error + row list" where
  "insert_detection r tbl =
     (if row_id r \<in> set (map row_id tbl) then Inl IntegrityError else Inr (tbl @ [r]))"

text \<open>
  \<^verbatim>\<open>SELECT ... ORDER BY timestamp DESC\<close>: all rows, the greatest timestamp first. Text is
  compared byte by byte and \<^verbatim>\<open>NULL\<close> is below every text, which is the order of
  \<^typ>\<open>string option\<close>. The order among equal timestamps is the engine's choice; the model
  takes the later insert first.
\<close>

definition list_all_rows :: "row list \<Rightarrow> row list" where
  "list_all_rows tbl = rev (sort_key row_timestamp tbl)"

subsection \<open>Clock\<close>

record datetime =
  dt_year :: nat
  dt_month :: nat
  dt_day :: nat
  dt_hour :: nat
  dt_minute :: nat
  dt_second :: nat

text \<open>The ranges of the fields of a \<^verbatim>\<open>datetime\<close> whose year has four digits.\<close>

definition valid_datetime :: "datetime \<Rightarrow> bool" where
  "valid_datetime d =
     (1000 \<le> dt_year d \<and> dt_year d \<le> 9999 \<and> 1 \<le> dt_month d \<and> dt_month d \<le> 12
      \<and> 1 \<le> dt_day d \<and> dt_day d \<le> 31 \<and> dt_hour d < 24 \<and> dt_minute d < 60 \<and> dt_second d < 60)"

text \<open>\<^verbatim>\<open>d.strftime("%Y-%m-%d %H:%M:%S")\<close>.\<close>

definition strftime :: "datetime \<Rightarrow> string" where
  "strftime d =
     radix_digits 10 4 (dt_year d) @ ''-'' @ radix_digits 10 2 (dt_month d) @ ''-''
       @ radix_digits 10 2 (dt_day d) @ '' '' @ radix_digits 10 2 (dt_hour d) @ '':''
       @ radix_digits 10 2 (dt_minute d) @ '':'' @ radix_digits 10 2 (dt_second d)"

text \<open>Earlier or equal on the clock: the fields compared from the year down.\<close>

definition chron_le :: "datetime \<Rightarrow> datetime \<Rightarrow> bool" where
  "chron_le a b =
     (if dt_year a \<noteq> dt_year b then dt_year a < dt_year b
      else if dt_month a \<noteq> dt_month b then dt_month a < dt_month b
      else if dt_day a \<noteq> dt_day b then dt_day a < dt_day b
      else if dt_hour a \<noteq> dt_hour b then dt_hour a < dt_hour b
      else if dt_minute a \<noteq> dt_minute b then dt_minute a < dt_minute b
      else dt_second a \<le> dt_second b)"

subsection \<open>The upload route\<close>

text \<open>
  The request: the file part, if the form has one, and the two text fields, if present.
  The state that a request reads and changes: the upload store, the table and what was
  printed.
\<close>

record request =
  req_file :: "file_storage option"
  req_location :: "string option"
  req_incharge :: "string option"

record app_state =
  uploads :: upload_store
  detections :: "row list"
  printed :: "string list"

text \<open>
  A response: a body with a status code, a redirect to a path, or an exception that no
  handler of the module caught.
\<close>

datatype response = Body string nat | Redirect string | Unhandled py_error

text \<open>\<^verbatim>\<open>form.get(key, "").strip()\<close>, and \<^verbatim>\<open>text or None\<close>.\<close>

definition form_get_strip :: "string option \<Rightarrow> string" where
  "form_get_strip v = str_strip (case v of None \<Rightarrow> [] | Some t \<Rightarrow> t)"

definition or_None :: "string \<Rightarrow> string option" where
  "or_None t = (if t = [] then None else Some t)"

text \<open>
  \<open>tok\<close> and \<open>rid\<close> are the two UUIDs drawn (for the file name and for the row), \<open>now\<close>
  is the clock. A \<^verbatim>\<open>FileStorage\<close> is false when its file name is empty or absent.
\<close>

definition upload ::
  "library \<Rightarrow> classifier option \<Rightarrow> uuid \<Rightarrow> uuid \<Rightarrow> datetime \<Rightarrow> request \<Rightarrow> app_state
     \<Rightarrow> response \<times> app_state" where
  "upload L model tok rid now req st =
     (let location = form_get_strip (req_location req);
          incharge = form_get_strip (req_incharge req)
      in case req_file req of
           None \<Rightarrow> (Body ''No file uploaded.'' 400, st)
         | Some file \<Rightarrow>
             if fs_filename file = None \<or> fs_filename file = Some []
             then (Body ''No file uploaded.'' 400, st)
             else
               (case save_uploaded_image L tok file (uploads st) of
                  (Inl e, store) \<Rightarrow>
                    (case e of
                       ValueError msg \<Rightarrow> (Body msg 400, st\<lparr>uploads := store\<rparr>)
                     | UnidentifiedImageError \<Rightarrow> (Unhandled e, st\<lparr>uploads := store\<rparr>)
                     | IntegrityError \<Rightarrow> (Unhandled e, st\<lparr>uploads := store\<rparr>))
                | (Inr filepath, store) \<Rightarrow>
                    (let (detected_set, out) = run_model model filepath;
                         r = \<lparr>row_id = str_uuid rid,
                              row_filename = Some (os_path_basename filepath),
                              row_detected_classes = Some (detected_str detected_set),
                              row_timestamp = Some (strftime now),
                              row_location = or_None location,
                              row_incharge = or_None incharge\<rparr>;
                         st1 = st\<lparr>uploads := store, printed := printed st @ out\<rparr>
                     in (case insert_detection r (detections st) of
                           Inl e \<Rightarrow> (Unhandled e, st1)
                         | Inr tbl \<Rightarrow> (Redirect ''/analytics'', st1\<lparr>detections := tbl\<rparr>)))))"

subsection \<open>The analytics route\<close>

record map_entry =
  me_id :: string
  me_filename :: "string option"
  me_detected :: "string option"
  me_timestamp :: "string option"
  me_location :: "string option"
  me_incharge :: "string option"
  me_lat :: pyfloat
  me_lon :: pyfloat
  me_color :: string

text \<open>
  Lines 168 to 192, the body of the loop: the counters and the map data before one row,
  and after it.
\<close>

definition analytics_row ::
  "(string \<Rightarrow> pyfloat option) \<Rightarrow> int \<times> int \<times> int \<times> map_entry list \<Rightarrow> row
     \<Rightarrow> int \<times> int \<times> int \<times> map_entry list" where
  "analytics_row float acc r =
     (case acc of (small_count, medium_count, large_count, map_data) \<Rightarrow>
        (let detected_field = str_lower (case row_detected_classes r of None \<Rightarrow> [] | Some d \<Rightarrow> d);
             (small_count1, medium_count1, large_count1, color) =
               (if str_contains ''small'' detected_field
                then (small_count + 1, medium_count, large_count, ''#28a745'')
                else if str_contains ''medium'' detected_field
                then (small_count, medium_count + 1, large_count, ''#ffc107'')
                else if str_contains ''large'' detected_field
                then (small_count, medium_count, large_count + 1, ''#dc3545'')
                else (small_count, medium_count, large_count, ''#6c757d''));
             coords = parse_location_to_coords float
                        (Some (case row_location r of None \<Rightarrow> [] | Some l \<Rightarrow> l))
         in (small_count1, medium_count1, large_count1,
             map_data @
               [\<lparr>me_id = row_id r, me_filename = row_filename r,
                 me_detected = row_detected_classes r, me_timestamp = row_timestamp r,
                 me_location = row_location r, me_incharge = row_incharge r,
                 me_lat = fst coords, me_lon = snd coords, me_color = color\<rparr>])))"

text \<open>What the route hands to the template.\<close>

record analytics_view =
  av_rows :: "row list"
  av_chart_data :: "int list"
  av_small_count :: int
  av_medium_count :: int
  av_large_count :: int
  av_map_data :: "map_entry list"
  av_city_coords :: coords
  av_city_name :: string

definition analytics :: "(string \<Rightarrow> pyfloat option) \<Rightarrow> app_state \<Rightarrow> analytics_view" where
  "analytics float st =
     (let rows = list_all_rows (detections st)
      in case foldl (analytics_row float) (0, 0, 0, []) rows of
           (small_count, medium_count, large_count, map_data) \<Rightarrow>
             \<lparr>av_rows = rows,
              av_chart_data = [small_count, medium_count, large_count],
              av_small_count = small_count,
              av_medium_count = medium_count,
              av_large_count = large_count,
              av_map_data = map_data,
              av_city_coords = CITY_COORDS,
              av_city_name = CITY_NAME\<rparr>)"

text \<open>
  The aggregator in the words of the specification, to compare the loop with: each record
  has one size category, found by matching its detected classes, without regard to case,
  against the substrings \<^verbatim>\<open>small\<close>, \<^verbatim>\<open>medium\<close> and \<^verbatim>\<open>large\<close> in that order, the first
  match winning; a record that matches none is unmatched. The display colours are green,
  amber, red and, for an unmatched record, gray.
\<close>

datatype size_category = Small | Medium | Large | Unmatched

definition spec_category :: "string option \<Rightarrow> size_category" where
  "spec_category detected =
     (let field = str_lower (case detected of None \<Rightarrow> [] | Some d \<Rightarrow> d)
      in if sublist ''small'' field then Small
         else if sublist ''medium'' field then Medium
         else if sublist ''large'' field then Large
         else Unmatched)"

definition GREEN :: string where
  "GREEN = ''#28a745''"

definition AMBER :: string where
  "AMBER = ''#ffc107''"

definition RED :: string where
  "RED = ''#dc3545''"

definition GRAY :: string where
  "GRAY = ''#6c757d''"

definition spec_color :: "size_category \<Rightarrow> string" where
  "spec_color c = (case c of Small \<Rightarrow> GREEN | Medium \<Rightarrow> AMBER | Large \<Rightarrow> RED | Unmatched \<Rightarrow> GRAY)"

subsection \<open>Concrete libraries, for running the model\<close>

text \<open>
  The theorems below hold for every library. To run the model on an input, these are
  simple instances: a parser of plain decimal numerals (\<^verbatim>\<open>float\<close> accepts more), a
  decoder that knows the PNG and JPEG signatures and takes the rest of the file as pixel
  data, werkzeug's \<^verbatim>\<open>secure_filename\<close> on ASCII names, and a detector with three classes.
\<close>

definition is_digit :: "char \<Rightarrow> bool" where
  "is_digit c = (CHR ''0'' \<le> c \<and> c \<le> CHR ''9'')"

definition nat_of_digits :: "string \<Rightarrow> nat" where
  "nat_of_digits ds = foldl (\<lambda>a c. 10 * a + (of_char c - 48)) 0 ds"

definition float_decimal :: "string \<Rightarrow> pyfloat option" where
  "float_decimal s =
     (let t = str_strip s;
          neg = (t \<noteq> [] \<and> hd t = CHR ''-'');
          u = (if t \<noteq> [] \<and> (hd t = CHR ''-'' \<or> hd t = CHR ''+'') then tl t else t);
          ip = takeWhile is_digit u;
          rest = dropWhile is_digit u;
          fp = (if rest = [] then [] else tl rest)
      in if (rest \<noteq> [] \<and> hd rest \<noteq> CHR ''.'') \<or> filter (\<lambda>c. \<not> is_digit c) fp \<noteq> []
            \<or> (ip = [] \<and> fp = [])
         then None
         else Some (Finite ((if neg then -1 else 1)
                * (real (nat_of_digits ip) + real (nat_of_digits fp) / 10 ^ length fp))))"

definition demo_open :: "bytes \<Rightarrow> image option" where
  "demo_open raw =
     (if take 4 raw = [0x89, 0x50, 0x4E, 0x47]
      then Some \<lparr>img_format = Some ''PNG'', img_mode = ''RGBA'', img_pixels = map unat (drop 4 raw)\<rparr>
      else if take 2 raw = [0xFF, 0xD8]
      then Some \<lparr>img_format = Some ''JPEG'', img_mode = ''L'', img_pixels = map unat (drop 2 raw)\<rparr>
      else None)"

fun str_words :: "string \<Rightarrow> string list" where
  "str_words [] = []"
| "str_words (c # cs) =
     (if is_space c then str_words cs
      else (case cs of
              [] \<Rightarrow> [[c]]
            | d # ds \<Rightarrow>
                if is_space d then [c] # str_words cs
                else (case str_words cs of
                        [] \<Rightarrow> [[c]]
                      | w # ws \<Rightarrow> (c # w) # ws)))"

definition is_filename_char :: "char \<Rightarrow> bool" where
  "is_filename_char c =
     ((CHR ''A'' \<le> c \<and> c \<le> CHR ''Z'') \<or> (CHR ''a'' \<le> c \<and> c \<le> CHR ''z'')
      \<or> (CHR ''0'' \<le> c \<and> c \<le> CHR ''9'') \<or> c = CHR ''_'' \<or> c = CHR ''.'' \<or> c = CHR ''-'')"

definition werkzeug_secure_filename :: "string \<Rightarrow> string" where
  "werkzeug_secure_filename name =
     (let spaced = map (\<lambda>c. if c = CHR ''/'' then CHR '' '' else c) name;
          kept = filter is_filename_char (str_join ''_'' (str_words spaced));
          edge = (\<lambda>c. c = CHR ''.'' \<or> c = CHR ''_'')
      in rev (dropWhile edge (rev (dropWhile edge kept))))"

definition demo_library :: library where
  "demo_library =
     \<lparr>Image_open = demo_open,
      Image_verify = (\<lambda>img. img_pixels img \<noteq> []),
      convert_pixels = (\<lambda>mode img. img_pixels img),
      secure_filename = werkzeug_secure_filename\<rparr>"

definition demo_names :: "int \<rightharpoonup> string" where
  "demo_names = [0 \<mapsto> ''small'', 1 \<mapsto> ''medium'', 2 \<mapsto> ''large'']"

definition demo_classifier :: "string + result list \<Rightarrow> classifier" where
  "demo_classifier outcome =
     \<lparr>clf_call = (\<lambda>filepath. outcome),
      clf_names = Some demo_names,
      clf_cls_str = (\<lambda>cls. ''tensor('' @ (if cls < 0 then ''-'' else [])
                              @ radix_digits 10 1 (nat \<bar>cls\<bar>) @ ''.)'')\<rparr>"

text \<open>A detector that knows one class, whose name is the empty string, and finds it once.\<close>

definition blank_classifier :: classifier where
  "blank_classifier =
     \<lparr>clf_call = (\<lambda>filepath. Inr [Result (Some [0])]),
      clf_names = Some [0 \<mapsto> []],
      clf_cls_str = (\<lambda>cls. ''tensor(0.)'')\<rparr>"

definition demo_png :: file_storage where
  "demo_png = \<lparr>fs_filename = Some ''my photo.PNG'', fs_content = [0x89, 0x50, 0x4E, 0x47, 1, 2, 3]\<rparr>"


definition demo_text :: file_storage where
  "demo_text = \<lparr>fs_filename = Some ''notes.png'', fs_content = [0x68, 0x69]\<rparr>"

definition demo_now :: datetime where
  "demo_now = \<lparr>dt_year = 2024, dt_month = 3, dt_day = 9, dt_hour = 14, dt_minute = 5, dt_second = 59\<rparr>"

definition empty_state :: app_state where
  "empty_state = \<lparr>uploads = Map.empty, detections = [], printed = []\<rparr>"

definition demo_later :: datetime where
  "demo_later = \<lparr>dt_year = 2024, dt_month = 3, dt_day = 10, dt_hour = 8, dt_minute = 0, dt_second = 0\<rparr>"

text \<open>A table of four records, one of each category, not in the order of their timestamps.\<close>

definition demo_state :: app_state where
  "demo_state =
     \<lparr>uploads = Map.empty,
      detections =
        [\<lparr>row_id = ''a'', row_filename = None, row_detected_classes = Some ''Small-Crack, large'',
          row_timestamp = Some ''2024-03-09 14:05:59'', row_location = None, row_incharge = None\<rparr>,
         \<lparr>row_id = ''b'', row_filename = None, row_detected_classes = Some ''MEDIUM'',
          row_timestamp = Some ''2024-03-10 08:00:00'', row_location = None, row_incharge = None\<rparr>,
         \<lparr>row_id = ''c'', row_filename = None, row_detected_classes = Some ''large'',
          row_timestamp = Some ''2023-12-31 23:59:59'', row_location = None, row_incharge = None\<rparr>,
         \<lparr>row_id = ''d'', row_filename = None, row_detected_classes = Some ''None'',
          row_timestamp = Some ''2024-03-09 14:06:00'', row_location = None, row_incharge = None\<rparr>],
      printed = []\<rparr>"


section \<open>Properties\<close>

subsection \<open>Location resolver\<close>



subsection \<open>Fixed-width numerals and the text of a UUID\<close>

lemma length_radix_digits: "length (radix_digits b n v) = n"
  by (induction n arbitrary: v) auto

lemma of_char_digit_char: "d < 16 \<Longrightarrow> of_char (digit_char d) = (if d < 10 then 48 + d else 87 + d)"
  by (simp add: digit_char_def)

lemma digit_char_inj: "d < 16 \<Longrightarrow> e < 16 \<Longrightarrow> digit_char d = digit_char e \<Longrightarrow> d = e"
proof -
  assume d: "d < 16" and e: "e < 16" and eq: "digit_char d = digit_char e"
  from eq have "(of_char (digit_char d) :: nat) = of_char (digit_char e)" by simp
  with d e show "d = e" by (simp add: of_char_digit_char split: if_splits)
qed

lemma digit_char_not_dash: "d < 16 \<Longrightarrow> digit_char d \<noteq> CHR ''-''"
proof
  assume d: "d < 16" and eq: "digit_char d = CHR ''-''"
  from eq have "(of_char (digit_char d) :: nat) = of_char CHR ''-''" by simp
  with d show False by (simp add: of_char_digit_char split: if_splits)
qed

lemma mod_radix_less: "1 < b \<Longrightarrow> b \<le> 16 \<Longrightarrow> v mod b < (16::nat)"
proof -
  assume b: "1 < b" "b \<le> 16"
  then have "v mod b < b" by simp
  with b show ?thesis by linarith
qed

lemma radix_digits_inj:
  "1 < b \<Longrightarrow> b \<le> 16 \<Longrightarrow> v < b ^ n \<Longrightarrow> w < b ^ n \<Longrightarrow> radix_digits b n v = radix_digits b n w \<Longrightarrow> v = w"
proof (induction n arbitrary: v w)
  case 0
  then show ?case by simp
next
  case (Suc n)
  from Suc.prems have eq1: "radix_digits b n (v div b) = radix_digits b n (w div b)"
    and eq2: "digit_char (v mod b) = digit_char (w mod b)"
    by (simp_all add: length_radix_digits)
  have m: "v mod b = w mod b"
    using digit_char_inj[OF mod_radix_less mod_radix_less eq2] Suc.prems(1,2) by blast
  have "v div b < b ^ n" "w div b < b ^ n" using Suc.prems(1,3,4)
    by (simp_all add: less_mult_imp_div_less mult.commute)
  with Suc.IH Suc.prems(1,2) eq1 have "v div b = w div b" by blast
  with m show ?case by (metis div_mult_mod_eq)
qed

lemma radix_digits_no_dash: "1 < b \<Longrightarrow> b \<le> 16 \<Longrightarrow> CHR ''-'' \<notin> set (radix_digits b n v)"
proof (induction n arbitrary: v)
  case 0
  then show ?case by simp
next
  case (Suc n)
  have "digit_char (v mod b) \<noteq> CHR ''-''"
    using Suc.prems by (intro digit_char_not_dash mod_radix_less)
  with Suc show ?case by auto
qed

text \<open>The text of a UUID has 36 characters, and different UUIDs have different texts.\<close>

lemma length_str_uuid: "length (str_uuid u) = 36"
  by (simp add: str_uuid_def Let_def length_radix_digits)

lemma uuid_groups: "take 8 h @ take 4 (drop 8 h) @ take 4 (drop 12 h) @ take 4 (drop 16 h) @ drop 20 h = h"
proof -
  have a: "take 4 (drop 16 h) @ drop 20 h = drop 16 h"
    using append_take_drop_id[of 4 "drop 16 h"] by simp
  have b: "take 4 (drop 12 h) @ drop 16 h = drop 12 h"
    using append_take_drop_id[of 4 "drop 12 h"] by simp
  have c: "take 4 (drop 8 h) @ drop 12 h = drop 8 h"
    using append_take_drop_id[of 4 "drop 8 h"] by simp
  show ?thesis by (simp only: a b c append_take_drop_id)
qed

lemma undash_str_uuid:
  "filter (\<lambda>c. c \<noteq> CHR ''-'') (str_uuid u) = radix_digits 16 32 (unat u)"
proof -
  define h where "h = radix_digits 16 32 (unat u)"
  have nd: "CHR ''-'' \<notin> set h" unfolding h_def by (rule radix_digits_no_dash) simp_all
  have f: "filter (\<lambda>c. c \<noteq> CHR ''-'') xs = xs" if "set xs \<subseteq> set h" for xs
    using nd that by (auto simp: filter_id_conv)
  have t: "set (take n (drop k h)) \<subseteq> set h" for n k
    by (meson set_take_subset set_drop_subset subset_trans)
  have "filter (\<lambda>c. c \<noteq> CHR ''-'') (str_uuid u)
      = take 8 h @ take 4 (drop 8 h) @ take 4 (drop 12 h) @ take 4 (drop 16 h) @ drop 20 h"
    unfolding str_uuid_def Let_def h_def[symmetric]
    by (simp add: f t set_take_subset set_drop_subset)
  then show ?thesis unfolding h_def[symmetric] by (simp only: uuid_groups)
qed

lemma str_uuid_inj: "str_uuid u = str_uuid v \<Longrightarrow> u = v"
proof -
  assume "str_uuid u = str_uuid v"
  then have "radix_digits 16 32 (unat u) = radix_digits 16 32 (unat v)"
    by (metis undash_str_uuid)
  moreover have "unat u < 16 ^ 32" "unat v < 16 ^ 32"
    using unsigned_less[of u] unsigned_less[of v] by simp_all
  ultimately have "unat u = unat v"
    using radix_digits_inj[of 16 "unat u" 32 "unat v"] by simp
  then show "u = v" by (simp add: word_unat_eq_iff)
qed

subsection \<open>Image validator and normalizer\<close>


lemma canonical_ext_not_jpeg: "canonical_ext img \<noteq> ''jpeg''"
  by (auto simp: canonical_ext_def Let_def ext_map_def split: option.splits if_splits)


lemma save_uploaded_image_invalid:
  "Image_open L (fs_content f) = None \<or> (\<exists>img. Image_open L (fs_content f) = Some img \<and> \<not> Image_verify L img)
   \<Longrightarrow> save_uploaded_image L tok f store = (Inl (ValueError ''Uploaded file is not a valid image''), store)"
  by (auto simp: save_uploaded_image_def Let_def)

lemma save_uploaded_image_valid:
  "Image_open L (fs_content f) = Some img \<Longrightarrow> Image_verify L img \<Longrightarrow>
   save_uploaded_image L tok f store =
     (Inr (os_path_join UPLOAD_FOLDER (stored_filename L tok (fs_filename f) (canonical_ext img))),
      store(os_path_join UPLOAD_FOLDER (stored_filename L tok (fs_filename f) (canonical_ext img)) \<mapsto>
        (if canonical_ext img = ''jpg''
         then \<lparr>sf_image = convert L img ''RGB'', sf_format = Some ''JPEG'', sf_quality = Some 90\<rparr>
         else \<lparr>sf_image = img, sf_format = img_format img, sf_quality = None\<rparr>)))"
  by (simp add: save_uploaded_image_def Let_def canonical_ext_not_jpeg)

lemma stored_filename_shape:
  "\<exists>base. stored_filename L tok name ext = str_uuid tok @ ''_'' @ base @ ''.'' @ ext"
  by (simp add: stored_filename_def Let_def)

lemma stored_filename_distinct:
  "tok1 \<noteq> tok2 \<Longrightarrow> stored_filename L1 tok1 name1 ext1 \<noteq> stored_filename L2 tok2 name2 ext2"
proof
  assume ne: "tok1 \<noteq> tok2"
    and eq: "stored_filename L1 tok1 name1 ext1 = stored_filename L2 tok2 name2 ext2"
  from eq have "take 36 (stored_filename L1 tok1 name1 ext1) = take 36 (stored_filename L2 tok2 name2 ext2)"
    by simp
  then have "str_uuid tok1 = str_uuid tok2"
    by (simp add: stored_filename_def Let_def length_str_uuid)
  with ne show False by (auto dest: str_uuid_inj)
qed

lemma digit_char_not_slash: "d < 16 \<Longrightarrow> digit_char d \<noteq> CHR ''/''"
proof
  assume d: "d < 16" and eq: "digit_char d = CHR ''/''"
  from eq have "(of_char (digit_char d) :: nat) = of_char CHR ''/''" by simp
  with d show False by (simp add: of_char_digit_char split: if_splits)
qed

lemma radix_digits_no_slash: "1 < b \<Longrightarrow> b \<le> 16 \<Longrightarrow> CHR ''/'' \<notin> set (radix_digits b n v)"
proof (induction n arbitrary: v)
  case 0
  then show ?case by simp
next
  case (Suc n)
  have "digit_char (v mod b) \<noteq> CHR ''/''"
    using Suc.prems by (intro digit_char_not_slash mod_radix_less)
  with Suc show ?case by auto
qed

lemma str_uuid_no_slash: "CHR ''/'' \<notin> set (str_uuid u)"
proof -
  have "CHR ''/'' \<notin> set (radix_digits 16 32 (unat u))"
    by (rule radix_digits_no_slash) simp_all
  then show ?thesis
    by (auto simp: str_uuid_def Let_def dest!: in_set_takeD in_set_dropD)
qed

lemma hd_str_uuid_not_slash: "hd (str_uuid u) \<noteq> CHR ''/''"
proof -
  have "str_uuid u \<noteq> []" using length_str_uuid[of u] by auto
  then show ?thesis using str_uuid_no_slash[of u] by (metis hd_in_set)
qed

lemma upload_path: "os_path_join UPLOAD_FOLDER (stored_filename L tok name ext)
    = ''uploads/'' @ stored_filename L tok name ext"
proof -
  have "stored_filename L tok name ext \<noteq> []" by (simp add: stored_filename_def Let_def)
  moreover have "hd (stored_filename L tok name ext) = hd (str_uuid tok)"
    using length_str_uuid[of tok] by (cases "str_uuid tok") (auto simp: stored_filename_def Let_def)
  ultimately show ?thesis
    using hd_str_uuid_not_slash[of tok] by (simp add: os_path_join_def UPLOAD_FOLDER_def)
qed





text \<open>
  C8. The stored file name is the text of the UUID drawn for the call, an underscore, the
  sanitized original name without its extension, a dot and the canonical extension. Two
  calls on valid images whose UUIDs differ give different file names and different paths,
  also when the bytes and the original names are the same; the second call leaves the
  first call's file in place.
\<close>

theorem save_uploaded_image_distinct_names:
  assumes "Image_open L (fs_content f1) = Some img1" and "Image_verify L img1"
    and "Image_open L (fs_content f2) = Some img2" and "Image_verify L img2"
    and "tok1 \<noteq> tok2"
  shows "\<exists>name1 name2 base1 base2.
           fst (save_uploaded_image L tok1 f1 store1) = Inr (''uploads/'' @ name1)
           \<and> fst (save_uploaded_image L tok2 f2 store2) = Inr (''uploads/'' @ name2)
           \<and> name1 = str_uuid tok1 @ ''_'' @ base1 @ ''.'' @ canonical_ext img1
           \<and> name2 = str_uuid tok2 @ ''_'' @ base2 @ ''.'' @ canonical_ext img2
           \<and> name1 \<noteq> name2
           \<and> snd (save_uploaded_image L tok2 f2 (snd (save_uploaded_image L tok1 f1 store1)))
                 (''uploads/'' @ name1)
               = snd (save_uploaded_image L tok1 f1 store1) (''uploads/'' @ name1)
           \<and> snd (save_uploaded_image L tok1 f1 store1) (''uploads/'' @ name1) \<noteq> None"
proof -
  let ?n1 = "stored_filename L tok1 (fs_filename f1) (canonical_ext img1)"
  let ?n2 = "stored_filename L tok2 (fs_filename f2) (canonical_ext img2)"
  obtain base1 where b1: "?n1 = str_uuid tok1 @ ''_'' @ base1 @ ''.'' @ canonical_ext img1"
    using stored_filename_shape by blast
  obtain base2 where b2: "?n2 = str_uuid tok2 @ ''_'' @ base2 @ ''.'' @ canonical_ext img2"
    using stored_filename_shape by blast
  have ne: "?n1 \<noteq> ?n2"
    using assms(5) by (rule stored_filename_distinct)
  have s1: "\<And>store. fst (save_uploaded_image L tok1 f1 store) = Inr (''uploads/'' @ ?n1)"
    by (simp add: save_uploaded_image_valid[OF assms(1,2)] upload_path)
  have s2: "\<And>store. fst (save_uploaded_image L tok2 f2 store) = Inr (''uploads/'' @ ?n2)"
    by (simp add: save_uploaded_image_valid[OF assms(3,4)] upload_path)
  have k: "snd (save_uploaded_image L tok2 f2 (snd (save_uploaded_image L tok1 f1 store1)))
                 (''uploads/'' @ ?n1)
               = snd (save_uploaded_image L tok1 f1 store1) (''uploads/'' @ ?n1)"
    using ne by (simp add: save_uploaded_image_valid[OF assms(3,4)] upload_path)
  have d: "snd (save_uploaded_image L tok1 f1 store1) (''uploads/'' @ ?n1) \<noteq> None"
    by (simp add: save_uploaded_image_valid[OF assms(1,2)] upload_path)
  show ?thesis
    using s1 s2 b1 b2 ne k d by metis
qed

text \<open>
  The theorem on the same file saved twice, with the UUIDs 1 and 2: the two paths differ.
\<close>

theorem save_uploaded_image_distinct_names_witness:
  "Image_open demo_library (fs_content demo_png)
     = Some \<lparr>img_format = Some ''PNG'', img_mode = ''RGBA'', img_pixels = [1, 2, 3]\<rparr>
   \<and> Image_verify demo_library \<lparr>img_format = Some ''PNG'', img_mode = ''RGBA'', img_pixels = [1, 2, 3]\<rparr>
   \<and> (1 :: uuid) \<noteq> 2
   \<and> fst (save_uploaded_image demo_library 1 demo_png Map.empty)
       = Inr ''uploads/00000000-0000-0000-0000-000000000001_my_photo.png''
   \<and> fst (save_uploaded_image demo_library 2 demo_png Map.empty)
       = Inr ''uploads/00000000-0000-0000-0000-000000000002_my_photo.png''
   \<and> fst (save_uploaded_image demo_library 1 demo_png Map.empty)
       \<noteq> fst (save_uploaded_image demo_library 2 demo_png Map.empty)"
proof -
  let ?P = "\<lparr>img_format = Some ''PNG'', img_mode = ''RGBA'', img_pixels = [1, 2, 3]\<rparr>"
  have op: "Image_open demo_library (fs_content demo_png) = Some ?P"
    by (simp add: demo_library_def demo_open_def demo_png_def)
  have vp: "Image_verify demo_library ?P"
    by (simp add: demo_library_def)
  have ne: "(1 :: uuid) \<noteq> 2"
    by simp
  have p1: "fst (save_uploaded_image demo_library 1 demo_png Map.empty)
       = Inr ''uploads/00000000-0000-0000-0000-000000000001_my_photo.png''"
    by code_simp
  have p2: "fst (save_uploaded_image demo_library 2 demo_png Map.empty)
       = Inr ''uploads/00000000-0000-0000-0000-000000000002_my_photo.png''"
    by code_simp
  from save_uploaded_image_distinct_names [OF op vp op vp ne, of Map.empty Map.empty]
  have "fst (save_uploaded_image demo_library 1 demo_png Map.empty)
       \<noteq> fst (save_uploaded_image demo_library 2 demo_png Map.empty)"
    by auto
  with op vp ne p1 p2 show ?thesis by simp
qed

subsection \<open>The upload route\<close>

text \<open>The three ways through the route: no file, a file that is no image, a valid image.\<close>

lemma upload_no_file:
  "req_file req = None \<or> (\<exists>f. req_file req = Some f \<and> (fs_filename f = None \<or> fs_filename f = Some []))
   \<Longrightarrow> upload L model tok rid now req st = (Body ''No file uploaded.'' 400, st)"
  by (auto simp: upload_def Let_def)

lemma upload_invalid_image:
  assumes "req_file req = Some f" and "fs_filename f = Some n" and "n \<noteq> []"
    and "Image_open L (fs_content f) = None
         \<or> (\<exists>img. Image_open L (fs_content f) = Some img \<and> \<not> Image_verify L img)"
  shows "upload L model tok rid now req st = (Body ''Uploaded file is not a valid image'' 400, st)"
  using assms(1-3) by (simp add: upload_def Let_def save_uploaded_image_invalid[OF assms(4)])

lemma upload_valid_image:
  assumes "req_file req = Some f" and "fs_filename f = Some n" and "n \<noteq> []"
    and "Image_open L (fs_content f) = Some img" and "Image_verify L img"
  shows "upload L model tok rid now req st =
     (let filepath = ''uploads/'' @ stored_filename L tok (Some n) (canonical_ext img);
          st1 = st\<lparr>uploads := snd (save_uploaded_image L tok f (uploads st)),
                   printed := printed st @ snd (run_model model filepath)\<rparr>;
          r = \<lparr>row_id = str_uuid rid,
               row_filename = Some (os_path_basename filepath),
               row_detected_classes = Some (detected_str (fst (run_model model filepath))),
               row_timestamp = Some (strftime now),
               row_location = or_None (form_get_strip (req_location req)),
               row_incharge = or_None (form_get_strip (req_incharge req))\<rparr>
      in if str_uuid rid \<in> set (map row_id (detections st))
         then (Unhandled IntegrityError, st1)
         else (Redirect ''/analytics'', st1\<lparr>detections := detections st @ [r]\<rparr>))"
  using assms(1-3)
  by (simp add: upload_def Let_def save_uploaded_image_valid[OF assms(4,5)] upload_path
      insert_detection_def split: prod.splits)

text \<open>
  C9. A request whose file part is missing, or whose file has no name or the empty name,
  is answered with status 400 and the body \<^verbatim>\<open>No file uploaded.\<close>; the state is unchanged, so
  that no file is saved and no row is inserted. A request whose file fails the image
  validation is answered with status 400 and the message of the validator's exception,
  and the state is unchanged as well.
\<close>

theorem upload_bad_request:
  "(req_file req = None
      \<or> (\<exists>f. req_file req = Some f \<and> (fs_filename f = None \<or> fs_filename f = Some []))
     \<longrightarrow> upload L model tok rid now req st = (Body ''No file uploaded.'' 400, st))
   \<and> (\<forall>f n. req_file req = Some f \<and> fs_filename f = Some n \<and> n \<noteq> []
          \<and> (Image_open L (fs_content f) = None
               \<or> (\<exists>img. Image_open L (fs_content f) = Some img \<and> \<not> Image_verify L img))
        \<longrightarrow> (\<exists>msg. fst (save_uploaded_image L tok f (uploads st)) = Inl (ValueError msg)
                   \<and> msg = ''Uploaded file is not a valid image''
                   \<and> upload L model tok rid now req st = (Body msg 400, st)))"
proof (intro conjI allI impI)
  assume "req_file req = None
      \<or> (\<exists>f. req_file req = Some f \<and> (fs_filename f = None \<or> fs_filename f = Some []))"
  then show "upload L model tok rid now req st = (Body ''No file uploaded.'' 400, st)"
    by (rule upload_no_file)
next
  fix f n
  assume a: "req_file req = Some f \<and> fs_filename f = Some n \<and> n \<noteq> []
          \<and> (Image_open L (fs_content f) = None
               \<or> (\<exists>img. Image_open L (fs_content f) = Some img \<and> \<not> Image_verify L img))"
  then have inv: "Image_open L (fs_content f) = None
               \<or> (\<exists>img. Image_open L (fs_content f) = Some img \<and> \<not> Image_verify L img)"
    by blast
  have "fst (save_uploaded_image L tok f (uploads st))
          = Inl (ValueError ''Uploaded file is not a valid image'')"
    by (simp add: save_uploaded_image_invalid[OF inv])
  moreover have "upload L model tok rid now req st
          = (Body ''Uploaded file is not a valid image'' 400, st)"
    using a inv by (intro upload_invalid_image[of req f n]) auto
  ultimately show "\<exists>msg. fst (save_uploaded_image L tok f (uploads st)) = Inl (ValueError msg)
                   \<and> msg = ''Uploaded file is not a valid image''
                   \<and> upload L model tok rid now req st = (Body msg 400, st)"
    by blast
qed

text \<open>
  The theorem on a request without a file part, and on a request whose file is plain
  text under a name that ends in \<^verbatim>\<open>.png\<close>.
\<close>

theorem upload_bad_request_witness:
  "req_file \<lparr>req_file = None, req_location = Some ''34.37,73.47'', req_incharge = Some ''Ali''\<rparr> = None
   \<and> upload demo_library None 1 2 demo_now
        \<lparr>req_file = None, req_location = Some ''34.37,73.47'', req_incharge = Some ''Ali''\<rparr> empty_state
       = (Body ''No file uploaded.'' 400, empty_state)
   \<and> fs_filename demo_text = Some ''notes.png''
   \<and> Image_open demo_library (fs_content demo_text) = None
   \<and> upload demo_library None 1 2 demo_now
        \<lparr>req_file = Some demo_text, req_location = None, req_incharge = None\<rparr> empty_state
       = (Body ''Uploaded file is not a valid image'' 400, empty_state)"
proof -
  let ?r1 = "\<lparr>req_file = None, req_location = Some ''34.37,73.47'', req_incharge = Some ''Ali''\<rparr>"
  let ?r2 = "\<lparr>req_file = Some demo_text, req_location = None, req_incharge = None\<rparr>"
  have n: "fs_filename demo_text = Some ''notes.png''"
    by (simp add: demo_text_def)
  have o: "Image_open demo_library (fs_content demo_text) = None"
    by (simp add: demo_library_def demo_open_def demo_text_def)
  have u1: "upload demo_library None 1 2 demo_now ?r1 empty_state
       = (Body ''No file uploaded.'' 400, empty_state)"
    using upload_bad_request [of ?r1 demo_library None 1 2 demo_now empty_state] by simp
  have u2: "upload demo_library None 1 2 demo_now ?r2 empty_state
       = (Body ''Uploaded file is not a valid image'' 400, empty_state)"
    using upload_bad_request [of ?r2 demo_library None 1 2 demo_now empty_state] n o by simp
  show ?thesis using n o u1 u2 by simp
qed



subsection \<open>Detection invoker\<close>

lemma finite_add_cls: "finite ds \<Longrightarrow> finite (foldl (add_cls m names) ds clss)"
  by (induction clss arbitrary: ds) (auto simp: add_cls_def split: option.splits)

lemma finite_add_result: "finite ds \<Longrightarrow> finite (foldl (add_result m names) ds results)"
  by (induction results arbitrary: ds) (auto simp: add_result_def finite_add_cls split: option.splits)

lemma finite_run_model: "finite (fst (run_model model filepath))"
  by (auto simp: run_model_def Let_def finite_add_result split: option.splits sum.splits)

lemma run_model_missing: "run_model None filepath = ({''model_missing''}, [])"
  by (simp add: run_model_def)


text \<open>A join is empty only for no strings or for the one empty string.\<close>

lemma str_join_eq_Nil: "sep \<noteq> [] \<Longrightarrow> str_join sep xs = [] \<longleftrightarrow> xs = [] \<or> xs = [[]]"
  by (induction sep xs rule: str_join.induct) auto

lemma sorted_list_of_set_single: "finite A \<Longrightarrow> sorted_list_of_set A = [x] \<longleftrightarrow> A = {x}"
proof
  assume "finite A" and "sorted_list_of_set A = [x]"
  then have "set (sorted_list_of_set A) = {x}" by simp
  with \<open>finite A\<close> show "A = {x}" by simp
next
  assume "finite A" and "A = {x}"
  then show "sorted_list_of_set A = [x]" by simp
qed

lemma detected_str_eq_Nil: "finite ds \<Longrightarrow> detected_str ds = [] \<longleftrightarrow> ds = {[]}"
  by (auto simp: detected_str_def str_join_eq_Nil sorted_list_of_set_single)

lemma detected_str_missing: "detected_str {''model_missing''} = ''model_missing''"
  by (simp add: detected_str_def)




text \<open>
  C1, as the code has it. When a call of the upload route changes the table, it appends
  exactly one row, and the detected classes of that row are a string, never \<^verbatim>\<open>NULL\<close>:
  \<^verbatim>\<open>None\<close> when the detection set is empty, and otherwise the distinct labels in
  ascending order joined by a comma and a space; with no detector this is the sentinel
  \<^verbatim>\<open>model_missing\<close>. The string is empty in one case only: when the detection set holds the
  empty label and nothing else.
\<close>

theorem upload_detected_classes:
  assumes "upload L model tok rid now req st = (resp, st')"
    and "detections st' \<noteq> detections st"
  shows "\<exists>file filepath ds r.
           req_file req = Some file
           \<and> fst (save_uploaded_image L tok file (uploads st)) = Inr filepath
           \<and> ds = fst (run_model model filepath) \<and> finite ds
           \<and> detections st' = detections st @ [r]
           \<and> row_detected_classes r
               = Some (if ds = {} then ''None'' else str_join '', '' (sorted_list_of_set ds))
           \<and> sorted (sorted_list_of_set ds) \<and> distinct (sorted_list_of_set ds)
           \<and> set (sorted_list_of_set ds) = ds
           \<and> (model = None \<longrightarrow> row_detected_classes r = Some ''model_missing'')
           \<and> (row_detected_classes r = Some [] \<longleftrightarrow> ds = {[]})"
proof (cases "req_file req")
  case None
  with assms show ?thesis by (simp add: upload_no_file)
next
  case (Some f)
  show ?thesis
  proof (cases "fs_filename f = None \<or> fs_filename f = Some []")
    case True
    with Some assms show ?thesis by (simp add: upload_no_file)
  next
    case False
    then obtain n where n: "fs_filename f = Some n" "n \<noteq> []" by auto
    show ?thesis
    proof (cases "\<exists>img. Image_open L (fs_content f) = Some img \<and> Image_verify L img")
      case False
      then have "Image_open L (fs_content f) = None
         \<or> (\<exists>img. Image_open L (fs_content f) = Some img \<and> \<not> Image_verify L img)"
        by (cases "Image_open L (fs_content f)") auto
      from upload_invalid_image[OF Some n this] assms show ?thesis by simp
    next
      case True
      then obtain img where img: "Image_open L (fs_content f) = Some img" "Image_verify L img"
        by blast
      let ?p = "''uploads/'' @ stored_filename L tok (Some n) (canonical_ext img)"
      let ?ds = "fst (run_model model ?p)"
      note u = upload_valid_image[OF Some n img, of model tok rid now st]
      have fresh: "str_uuid rid \<notin> set (map row_id (detections st))"
        using assms by (auto simp: u Let_def split: if_splits)
      with assms(1) obtain r where r: "detections st' = detections st @ [r]"
        "row_detected_classes r = Some (detected_str ?ds)"
        by (auto simp: u Let_def)
      have s: "fst (save_uploaded_image L tok f (uploads st)) = Inr ?p"
        using n by (simp add: save_uploaded_image_valid[OF img] upload_path)
      have fin: "finite ?ds" by (rule finite_run_model)
      have str: "detected_str ?ds
                  = (if ?ds = {} then ''None'' else str_join '', '' (sorted_list_of_set ?ds))"
        by (simp add: detected_str_def)
      have miss: "model = None \<longrightarrow> row_detected_classes r = Some ''model_missing''"
        using r(2) by (auto simp: run_model_missing detected_str_missing)
      have emp: "row_detected_classes r = Some [] \<longleftrightarrow> ?ds = {[]}"
        using r(2) detected_str_eq_Nil[OF fin] by simp
      have srt: "sorted (sorted_list_of_set ?ds)" "distinct (sorted_list_of_set ?ds)"
        "set (sorted_list_of_set ?ds) = ?ds"
        using fin by simp_all
      have row: "row_detected_classes r
                  = Some (if ?ds = {} then ''None'' else str_join '', '' (sorted_list_of_set ?ds))"
        using r(2) str by simp
      from Some s fin r(1) row srt miss emp show ?thesis
        by blast
    qed
  qed
qed

text \<open>
  The theorem on a PNG in which the detector finds the classes 2, 0, 2 and 7, the last of
  which has no name: the row holds \<^verbatim>\<open>large, small, tensor(7.)\<close>.
\<close>

theorem upload_detected_classes_witness:
  "detections (snd (upload demo_library
       (Some (demo_classifier (Inr [Result (Some [2, 0, 2, 7]), Result None]))) 1 2 demo_now
       \<lparr>req_file = Some demo_png, req_location = Some '' 34.37,73.47 '', req_incharge = None\<rparr>
       empty_state))
     = [\<lparr>row_id = ''00000000-0000-0000-0000-000000000002'',
         row_filename = Some ''00000000-0000-0000-0000-000000000001_my_photo.png'',
         row_detected_classes = Some ''large, small, tensor(7.)'',
         row_timestamp = Some ''2024-03-09 14:05:59'',
         row_location = Some ''34.37,73.47'', row_incharge = None\<rparr>]
   \<and> detections (snd (upload demo_library
       (Some (demo_classifier (Inr [Result (Some [2, 0, 2, 7]), Result None]))) 1 2 demo_now
       \<lparr>req_file = Some demo_png, req_location = Some '' 34.37,73.47 '', req_incharge = None\<rparr>
       empty_state)) \<noteq> detections empty_state
   \<and> fst (run_model (Some (demo_classifier (Inr [Result (Some [2, 0, 2, 7]), Result None])))
            ''uploads/00000000-0000-0000-0000-000000000001_my_photo.png'')
       = {''large'', ''small'', ''tensor(7.)''}"
proof -
  let ?M = "Some (demo_classifier (Inr [Result (Some [2, 0, 2, 7]), Result None]))"
  let ?R = "\<lparr>req_file = Some demo_png, req_location = Some '' 34.37,73.47 '', req_incharge = None\<rparr>"
  have e: "detections (snd (upload demo_library ?M 1 2 demo_now ?R empty_state))
     = [\<lparr>row_id = ''00000000-0000-0000-0000-000000000002'',
         row_filename = Some ''00000000-0000-0000-0000-000000000001_my_photo.png'',
         row_detected_classes = Some ''large, small, tensor(7.)'',
         row_timestamp = Some ''2024-03-09 14:05:59'',
         row_location = Some ''34.37,73.47'', row_incharge = None\<rparr>]"
    by code_simp
  have d: "detections empty_state = []"
    by (simp add: empty_state_def)
  have ne: "detections (snd (upload demo_library ?M 1 2 demo_now ?R empty_state)) \<noteq> detections empty_state"
    using e d by simp
  have rm: "fst (run_model ?M ''uploads/00000000-0000-0000-0000-000000000001_my_photo.png'')
       = {''large'', ''small'', ''tensor(7.)''}"
    by code_simp
  have "\<exists>file filepath ds r.
           req_file ?R = Some file
           \<and> fst (save_uploaded_image demo_library 1 file (uploads empty_state)) = Inr filepath
           \<and> ds = fst (run_model ?M filepath) \<and> finite ds
           \<and> detections (snd (upload demo_library ?M 1 2 demo_now ?R empty_state))
               = detections empty_state @ [r]
           \<and> row_detected_classes r
               = Some (if ds = {} then ''None'' else str_join '', '' (sorted_list_of_set ds))
           \<and> sorted (sorted_list_of_set ds) \<and> distinct (sorted_list_of_set ds)
           \<and> set (sorted_list_of_set ds) = ds
           \<and> (?M = None \<longrightarrow> row_detected_classes r = Some ''model_missing'')
           \<and> (row_detected_classes r = Some [] \<longleftrightarrow> ds = {[]})"
    using upload_detected_classes [OF surjective_pairing ne] .
  then show ?thesis using e ne rm by simp
qed

text \<open>
  C1, as the specification has it, says that the stored string is never empty. A detector
  whose only class is named by the empty string makes it empty: the detection set is not
  empty, and its join is.
\<close>

theorem upload_detected_classes_counterexample:
  "fst (upload demo_library (Some blank_classifier) 1 2 demo_now
         \<lparr>req_file = Some demo_png, req_location = None, req_incharge = None\<rparr> empty_state)
     = Redirect ''/analytics''
   \<and> fst (run_model (Some blank_classifier)
            ''uploads/00000000-0000-0000-0000-000000000001_my_photo.png'')
       = {[]}
   \<and> map row_detected_classes
        (detections (snd (upload demo_library (Some blank_classifier) 1 2 demo_now
           \<lparr>req_file = Some demo_png, req_location = None, req_incharge = None\<rparr> empty_state)))
       = [Some []]"
  by code_simp

subsection \<open>The analytics route\<close>

text \<open>The test \<^verbatim>\<open>needle in hay\<close> of the model is the library's notion of a contiguous sublist.\<close>

lemma str_contains_sublist: "str_contains needle hay = sublist needle hay"
  by (induction hay) (auto simp: sublist_Cons_right)

text \<open>One pass of the loop, by the category of the row.\<close>

lemma analytics_row_category:
  "analytics_row float (s, m, l, md) r =
     (s + (if spec_category (row_detected_classes r) = Small then 1 else 0),
      m + (if spec_category (row_detected_classes r) = Medium then 1 else 0),
      l + (if spec_category (row_detected_classes r) = Large then 1 else 0),
      md @ [\<lparr>me_id = row_id r, me_filename = row_filename r,
              me_detected = row_detected_classes r, me_timestamp = row_timestamp r,
              me_location = row_location r, me_incharge = row_incharge r,
              me_lat = fst (parse_location_to_coords float
                              (Some (case row_location r of None \<Rightarrow> [] | Some t \<Rightarrow> t))),
              me_lon = snd (parse_location_to_coords float
                              (Some (case row_location r of None \<Rightarrow> [] | Some t \<Rightarrow> t))),
              me_color = spec_color (spec_category (row_detected_classes r))\<rparr>])"
  by (simp add: analytics_row_def spec_category_def spec_color_def Let_def str_contains_sublist
      GREEN_def AMBER_def RED_def GRAY_def)

lemma foldl_analytics_row:
  "foldl (analytics_row float) (s, m, l, md) rows =
     (s + int (length (filter (\<lambda>r. spec_category (row_detected_classes r) = Small) rows)),
      m + int (length (filter (\<lambda>r. spec_category (row_detected_classes r) = Medium) rows)),
      l + int (length (filter (\<lambda>r. spec_category (row_detected_classes r) = Large) rows)),
      md @ map (\<lambda>r. \<lparr>me_id = row_id r, me_filename = row_filename r,
              me_detected = row_detected_classes r, me_timestamp = row_timestamp r,
              me_location = row_location r, me_incharge = row_incharge r,
              me_lat = fst (parse_location_to_coords float
                              (Some (case row_location r of None \<Rightarrow> [] | Some t \<Rightarrow> t))),
              me_lon = snd (parse_location_to_coords float
                              (Some (case row_location r of None \<Rightarrow> [] | Some t \<Rightarrow> t))),
              me_color = spec_color (spec_category (row_detected_classes r))\<rparr>) rows)"
proof (induction rows arbitrary: s m l md)
  case Nil
  show ?case by simp
next
  case (Cons r rows)
  show ?case
    by (simp only: foldl_Cons analytics_row_category Cons.IH) simp
qed

lemma mset_list_all_rows: "mset (list_all_rows tbl) = mset tbl"
  by (simp add: list_all_rows_def)

lemma length_filter_list_all_rows: "length (filter P (list_all_rows tbl)) = length (filter P tbl)"
proof -
  have "mset (filter P (list_all_rows tbl)) = mset (filter P tbl)"
    by (simp add: mset_list_all_rows)
  then show ?thesis by (metis size_mset)
qed

text \<open>
  C3. The three counts of the analytics view are the numbers of records of the table whose
  category is small, medium and large, where the category of a record is found on its
  detected classes in lower case by the first of the substrings \<^verbatim>\<open>small\<close>, \<^verbatim>\<open>medium\<close>,
  \<^verbatim>\<open>large\<close> that occurs in it. One pass of the loop adds one to the count of the record's
  category and to no other count, and to no count for an unmatched record. The colour of
  each map entry is green, amber, red or gray by the category of its record. A record
  with the detected classes \<^verbatim>\<open>small-crack\<close> is small, and so is one that also contains
  \<^verbatim>\<open>large\<close>.
\<close>

theorem analytics_counts_first_match:
  "av_small_count (analytics float st)
     = int (length (filter (\<lambda>r. spec_category (row_detected_classes r) = Small) (detections st)))
   \<and> av_medium_count (analytics float st)
     = int (length (filter (\<lambda>r. spec_category (row_detected_classes r) = Medium) (detections st)))
   \<and> av_large_count (analytics float st)
     = int (length (filter (\<lambda>r. spec_category (row_detected_classes r) = Large) (detections st)))
   \<and> av_chart_data (analytics float st)
     = [av_small_count (analytics float st), av_medium_count (analytics float st),
        av_large_count (analytics float st)]
   \<and> map me_color (av_map_data (analytics float st))
     = map (\<lambda>r. spec_color (spec_category (row_detected_classes r))) (av_rows (analytics float st))
   \<and> fst (analytics_row float (s, m, l, md) r)
     = s + (if spec_category (row_detected_classes r) = Small then 1 else 0)
   \<and> fst (snd (analytics_row float (s, m, l, md) r))
     = m + (if spec_category (row_detected_classes r) = Medium then 1 else 0)
   \<and> fst (snd (snd (analytics_row float (s, m, l, md) r)))
     = l + (if spec_category (row_detected_classes r) = Large then 1 else 0)
   \<and> map me_color (snd (snd (snd (analytics_row float (s, m, l, md) r))))
     = map me_color md @ [spec_color (spec_category (row_detected_classes r))]
   \<and> spec_category (Some ''small-crack'') = Small
   \<and> spec_category (Some ''Large, SMALL-crack'') = Small
   \<and> spec_category (Some ''None'') = Unmatched
   \<and> spec_color Small = ''#28a745'' \<and> spec_color Medium = ''#ffc107''
   \<and> spec_color Large = ''#dc3545'' \<and> spec_color Unmatched = ''#6c757d''"
proof -
  have fold: "foldl (analytics_row float) (0, 0, 0, []) rows =
     (int (length (filter (\<lambda>r. spec_category (row_detected_classes r) = Small) rows)),
      int (length (filter (\<lambda>r. spec_category (row_detected_classes r) = Medium) rows)),
      int (length (filter (\<lambda>r. spec_category (row_detected_classes r) = Large) rows)),
      map (\<lambda>r. \<lparr>me_id = row_id r, me_filename = row_filename r,
              me_detected = row_detected_classes r, me_timestamp = row_timestamp r,
              me_location = row_location r, me_incharge = row_incharge r,
              me_lat = fst (parse_location_to_coords float
                              (Some (case row_location r of None \<Rightarrow> [] | Some t \<Rightarrow> t))),
              me_lon = snd (parse_location_to_coords float
                              (Some (case row_location r of None \<Rightarrow> [] | Some t \<Rightarrow> t))),
              me_color = spec_color (spec_category (row_detected_classes r))\<rparr>) rows)" for rows
    by (simp add: foldl_analytics_row)
  have counts:
    "av_small_count (analytics float st)
       = int (length (filter (\<lambda>r. spec_category (row_detected_classes r) = Small) (detections st)))"
    "av_medium_count (analytics float st)
       = int (length (filter (\<lambda>r. spec_category (row_detected_classes r) = Medium) (detections st)))"
    "av_large_count (analytics float st)
       = int (length (filter (\<lambda>r. spec_category (row_detected_classes r) = Large) (detections st)))"
    by (simp_all add: analytics_def Let_def fold length_filter_list_all_rows)
  have chart: "av_chart_data (analytics float st)
     = [av_small_count (analytics float st), av_medium_count (analytics float st),
        av_large_count (analytics float st)]"
    by (simp add: analytics_def Let_def fold)
  have colors: "map me_color (av_map_data (analytics float st))
     = map (\<lambda>r. spec_color (spec_category (row_detected_classes r))) (av_rows (analytics float st))"
    by (simp add: analytics_def Let_def fold comp_def)
  have row: "fst (analytics_row float (s, m, l, md) r)
       = s + (if spec_category (row_detected_classes r) = Small then 1 else 0)"
    "fst (snd (analytics_row float (s, m, l, md) r))
       = m + (if spec_category (row_detected_classes r) = Medium then 1 else 0)"
    "fst (snd (snd (analytics_row float (s, m, l, md) r)))
       = l + (if spec_category (row_detected_classes r) = Large then 1 else 0)"
    "map me_color (snd (snd (snd (analytics_row float (s, m, l, md) r))))
       = map me_color md @ [spec_color (spec_category (row_detected_classes r))]"
    by (simp_all add: analytics_row_category)
  have ex: "spec_category (Some ''small-crack'') = Small"
    "spec_category (Some ''Large, SMALL-crack'') = Small"
    "spec_category (Some ''None'') = Unmatched"
    by code_simp+
  have col: "spec_color Small = ''#28a745''" "spec_color Medium = ''#ffc107''"
    "spec_color Large = ''#dc3545''" "spec_color Unmatched = ''#6c757d''"
    by (simp_all add: spec_color_def GREEN_def AMBER_def RED_def GRAY_def)
  from counts chart colors row ex col show ?thesis
    by (intro conjI)
qed

text \<open>The route on a table of four records, one of each category.\<close>

lemma analytics_example:
  "av_chart_data (analytics float_decimal demo_state) = [1, 1, 1]
   \<and> map me_color (av_map_data (analytics float_decimal demo_state)) = [AMBER, GRAY, GREEN, RED]"
  by code_simp

subsection \<open>Timestamps and the order of the listing\<close>

text \<open>
  Texts of the same length are compared part by part: a common prefix length splits the
  comparison into the prefixes and, when they are equal, the rests.
\<close>

lemma append_le_append:
  "length a = length c \<Longrightarrow> (a @ b \<le> c @ d) = (a < c \<or> a = c \<and> b \<le> (d :: 'a :: linorder list))"
  by (induction a c rule: list_induct2) auto

lemma digit_char_le: "d < 16 \<Longrightarrow> e < 16 \<Longrightarrow> (digit_char d \<le> digit_char e) = (d \<le> e)"
  by (simp add: less_eq_char_def of_char_digit_char)

lemma digit_char_less: "d < 16 \<Longrightarrow> e < 16 \<Longrightarrow> (digit_char d < digit_char e) = (d < e)"
  by (simp add: less_char_def of_char_digit_char)

lemma div_mod_lex:
  "(v \<le> w) = (v div b < w div b \<or> v div b = w div b \<and> v mod b \<le> w mod (b::nat))"
proof (cases "v div b = w div b")
  case True
  have "v = b * (v div b) + v mod b"
    by simp
  moreover have "w = b * (v div b) + w mod b"
    unfolding True by simp
  ultimately have "(v \<le> w) = (v mod b \<le> w mod b)"
    by (metis add_le_cancel_left)
  with True show ?thesis by simp
next
  case False
  show ?thesis
  proof (cases "v div b < w div b")
    case True
    then have "\<not> w \<le> v" using div_le_mono[of w v b] by auto
    with True show ?thesis by simp
  next
    case ge: False
    with False have "w div b < v div b" by simp
    then have "\<not> v \<le> w" using div_le_mono[of v w b] by auto
    with False ge show ?thesis by simp
  qed
qed

lemma radix_digits_le:
  "1 < b \<Longrightarrow> b \<le> 16 \<Longrightarrow> v < b ^ n \<Longrightarrow> w < b ^ n \<Longrightarrow>
   (radix_digits b n v \<le> radix_digits b n w) = (v \<le> w)"
proof (induction n arbitrary: v w)
  case 0
  then show ?case by simp
next
  case (Suc n)
  have d: "v div b < b ^ n" "w div b < b ^ n" using Suc.prems(1,3,4)
    by (simp_all add: less_mult_imp_div_less mult.commute)
  have m: "v mod b < 16" "w mod b < 16"
    using Suc.prems(1,2) by (simp_all add: mod_radix_less)
  have ih: "(radix_digits b n (v div b) \<le> radix_digits b n (w div b)) = (v div b \<le> w div b)"
    using Suc.IH[OF Suc.prems(1,2) d] .
  have inj: "(radix_digits b n (v div b) = radix_digits b n (w div b)) = (v div b = w div b)"
    using radix_digits_inj[OF Suc.prems(1,2) d] by auto
  have lt: "(radix_digits b n (v div b) < radix_digits b n (w div b)) = (v div b < w div b)"
    using ih inj by (simp add: less_le)
  have last: "([digit_char (v mod b)] \<le> [digit_char (w mod b)]) = (v mod b \<le> w mod b)"
    using digit_char_le[OF m] by (simp add: le_less)
  have "(radix_digits b (Suc n) v \<le> radix_digits b (Suc n) w)
      = (radix_digits b n (v div b) < radix_digits b n (w div b)
         \<or> radix_digits b n (v div b) = radix_digits b n (w div b)
           \<and> [digit_char (v mod b)] \<le> [digit_char (w mod b)])"
    unfolding radix_digits.simps by (rule append_le_append) (simp add: length_radix_digits)
  also have "\<dots> = (v div b < w div b \<or> v div b = w div b \<and> v mod b \<le> w mod b)"
    by (simp only: lt inj last)
  also have "\<dots> = (v \<le> w)"
    by (rule div_mod_lex[symmetric])
  finally show ?case .
qed

lemma radix_digits_less:
  "1 < b \<Longrightarrow> b \<le> 16 \<Longrightarrow> v < b ^ n \<Longrightarrow> w < b ^ n \<Longrightarrow>
   (radix_digits b n v < radix_digits b n w) = (v < w)"
  using radix_digits_le[of b w n v] by (simp add: not_le[symmetric])

lemma radix_digits_eq:
  "1 < b \<Longrightarrow> b \<le> 16 \<Longrightarrow> v < b ^ n \<Longrightarrow> w < b ^ n \<Longrightarrow>
   (radix_digits b n v = radix_digits b n w) = (v = w)"
  using radix_digits_inj[of b v n w] by auto

text \<open>A fixed-width field, a separator and the rest: the field decides, then the rest.\<close>

lemma field_then_rest:
  assumes "1 < b" and "b \<le> 16" and "v < b ^ n" and "w < b ^ n"
  shows "(radix_digits b n v @ c # r \<le> radix_digits b n w @ c # r') = (v < w \<or> v = w \<and> r \<le> r')"
proof -
  have "(radix_digits b n v @ c # r \<le> radix_digits b n w @ c # r')
      = (radix_digits b n v < radix_digits b n w
         \<or> radix_digits b n v = radix_digits b n w \<and> c # r \<le> c # r')"
    by (rule append_le_append) (simp add: length_radix_digits)
  then show ?thesis
    by (simp add: radix_digits_less[OF assms] radix_digits_eq[OF assms])
qed

text \<open>
  On datetimes with a four-digit year, the order of the timestamp texts is the order of
  the clock.
\<close>

lemma strftime_le:
  assumes "valid_datetime a" and "valid_datetime b"
  shows "(strftime a \<le> strftime b) = chron_le a b"
proof -
  have ya: "dt_year a < 10 ^ 4" and yb: "dt_year b < 10 ^ 4"
    and ma: "dt_month a < 10 ^ 2" and mb: "dt_month b < 10 ^ 2"
    and da: "dt_day a < 10 ^ 2" and db: "dt_day b < 10 ^ 2"
    and ha: "dt_hour a < 10 ^ 2" and hb: "dt_hour b < 10 ^ 2"
    and ia: "dt_minute a < 10 ^ 2" and ib: "dt_minute b < 10 ^ 2"
    and sa: "dt_second a < 10 ^ 2" and sb: "dt_second b < 10 ^ 2"
    using assms by (simp_all add: valid_datetime_def)
  have b10: "(1::nat) < 10" "(10::nat) \<le> 16" by simp_all
  have "(strftime a \<le> strftime b)
      = (dt_year a < dt_year b \<or> dt_year a = dt_year b \<and>
          (dt_month a < dt_month b \<or> dt_month a = dt_month b \<and>
            (dt_day a < dt_day b \<or> dt_day a = dt_day b \<and>
              (dt_hour a < dt_hour b \<or> dt_hour a = dt_hour b \<and>
                (dt_minute a < dt_minute b \<or> dt_minute a = dt_minute b \<and>
                  dt_second a \<le> dt_second b)))))"
    unfolding strftime_def append_Cons append_Nil
    by (simp only: field_then_rest[OF b10 ya yb] field_then_rest[OF b10 ma mb]
        field_then_rest[OF b10 da db] field_then_rest[OF b10 ha hb]
        field_then_rest[OF b10 ia ib] radix_digits_le[OF b10 sa sb])
  also have "\<dots> = chron_le a b"
    by (auto simp: chron_le_def)
  finally show ?thesis .
qed

lemma sorted_rev_list_all_rows: "sorted (rev (map row_timestamp (list_all_rows tbl)))"
  by (simp add: list_all_rows_def rev_map[symmetric])

text \<open>
  C7. The listing of the analytics route holds every row of the table, each as often as
  the table does, so nothing is filtered and nothing is cut off. The timestamps of the
  listing descend as texts. For rows whose timestamps were written by \<^verbatim>\<open>strftime\<close> from
  datetimes with a four-digit year, a row listed before another is not older than it: on
  such timestamps the order of the texts is the order of the clock.
\<close>

theorem analytics_lists_newest_first:
  "av_rows (analytics float st) = list_all_rows (detections st)
   \<and> mset (av_rows (analytics float st)) = mset (detections st)
   \<and> sorted (rev (map row_timestamp (av_rows (analytics float st))))
   \<and> (\<forall>i j a b. i < j \<and> j < length (av_rows (analytics float st))
          \<and> row_timestamp (av_rows (analytics float st) ! i) = Some (strftime a)
          \<and> row_timestamp (av_rows (analytics float st) ! j) = Some (strftime b)
          \<and> valid_datetime a \<and> valid_datetime b
        \<longrightarrow> chron_le b a)
   \<and> (\<forall>a b. valid_datetime a \<and> valid_datetime b
        \<longrightarrow> (strftime a \<le> strftime b) = chron_le a b)"
proof -
  let ?rows = "av_rows (analytics float st)"
  have rows: "?rows = list_all_rows (detections st)"
    by (simp add: analytics_def Let_def split: prod.splits)
  have all: "mset ?rows = mset (detections st)"
    by (simp only: rows mset_list_all_rows)
  have desc: "sorted (rev (map row_timestamp ?rows))"
    by (simp only: rows sorted_rev_list_all_rows)
  have clock: "chron_le b a"
    if "i < j \<and> j < length ?rows
          \<and> row_timestamp (?rows ! i) = Some (strftime a)
          \<and> row_timestamp (?rows ! j) = Some (strftime b)
          \<and> valid_datetime a \<and> valid_datetime b" for i j a b
  proof -
    from that have ij: "i \<le> j" "j < length (map row_timestamp ?rows)" by simp_all
    from sorted_rev_nth_mono[OF desc ij]
    have "map row_timestamp ?rows ! j \<le> map row_timestamp ?rows ! i" .
    with that have "Some (strftime b) \<le> Some (strftime a)" by simp
    then have "strftime b \<le> strftime a" by simp
    with that show ?thesis by (simp add: strftime_le)
  qed
  have tord: "(strftime a \<le> strftime b) = chron_le a b"
    if "valid_datetime a \<and> valid_datetime b" for a b
    using that by (simp add: strftime_le)
  show ?thesis
  proof (intro conjI allI impI)
    show "?rows = list_all_rows (detections st)" by (rule rows)
    show "mset ?rows = mset (detections st)" by (rule all)
    show "sorted (rev (map row_timestamp ?rows))" by (rule desc)
  next
    fix i j a b
    assume "i < j \<and> j < length ?rows
          \<and> row_timestamp (?rows ! i) = Some (strftime a)
          \<and> row_timestamp (?rows ! j) = Some (strftime b)
          \<and> valid_datetime a \<and> valid_datetime b"
    then show "chron_le b a" by (rule clock)
  next
    fix a b
    assume "valid_datetime a \<and> valid_datetime b"
    then show "(strftime a \<le> strftime b) = chron_le a b" by (rule tord)
  qed
qed

text \<open>
  The theorem on the table of four records: the listing starts with the record of
  10 March, and the record of 9 March 14:05:59 is third.
\<close>

theorem analytics_lists_newest_first_witness:
  "map row_id (av_rows (analytics float_decimal demo_state)) = [''b'', ''d'', ''a'', ''c'']
   \<and> valid_datetime demo_later \<and> valid_datetime demo_now
   \<and> row_timestamp (av_rows (analytics float_decimal demo_state) ! 0) = Some (strftime demo_later)
   \<and> row_timestamp (av_rows (analytics float_decimal demo_state) ! 2) = Some (strftime demo_now)
   \<and> chron_le demo_now demo_later
   \<and> strftime demo_now \<le> strftime demo_later"
proof -
  let ?rows = "av_rows (analytics float_decimal demo_state)"
  have ids: "map row_id ?rows = [''b'', ''d'', ''a'', ''c'']"
    by code_simp
  have va: "valid_datetime demo_later" and vb: "valid_datetime demo_now"
    by (simp_all add: valid_datetime_def demo_later_def demo_now_def)
  have t0: "row_timestamp (?rows ! 0) = Some (strftime demo_later)"
    by code_simp
  have t2: "row_timestamp (?rows ! 2) = Some (strftime demo_now)"
    by code_simp
  have "length (map row_id ?rows) = 4"
    by (simp only: ids) simp
  then have len: "(0::nat) < 2 \<and> 2 < length ?rows"
    by simp
  from analytics_lists_newest_first [of float_decimal demo_state] len t0 t2 va vb
  have c: "chron_le demo_now demo_later"
    by blast
  from analytics_lists_newest_first [of float_decimal demo_state] va vb c
  have s: "strftime demo_now \<le> strftime demo_later"
    by blast
  from ids va vb t0 t2 c s show ?thesis by simp
qed

end
